theory Spec2Isabelle
  imports
    Complex_Main
    "HOL-Library.AList"
    "HOL-Library.Sublist"
    "HOL-Library.Char_ord"
    "HOL-Library.List_Lexorder"
begin

section \<open>xfetcher: download, safe extraction and cleanup\<close>

text \<open>
  A shallow embedding of \<^verbatim>\<open>src/xfetcher/downloader.py\<close> and
  \<^verbatim>\<open>src/xfetcher/utils.py\<close>. The class \<^verbatim>\<open>Downloader\<close> works on three
  things outside itself: the local file system, the HTTP transport
  (\<^verbatim>\<open>requests\<close>) and the archive codec (\<^verbatim>\<open>zipfile\<close>). The file system is
  an explicit state that every operation takes and returns; the transport, the codec, the
  URL parser and the operator at the prompt are parameters, collected in the record
  \<open>env\<close>. Every \<^verbatim>\<open>raise\<close> of the source is a value of the type \<open>error\<close>; a
  download that never returns, because the iteration of the transport never ends, has the
  result \<open>None\<close>.
\<close>

subsection \<open>Strings\<close>

text \<open>Python's \<^verbatim>\<open>str.startswith\<close>, \<^verbatim>\<open>str.endswith\<close>, \<^verbatim>\<open>sub in s\<close>,
  \<^verbatim>\<open>str.split(sep)\<close> and \<^verbatim>\<open>str.lower\<close> (on ASCII letters; no other character
  lowers to one of the letters the source compares with).\<close>

definition backslash :: char where
  "backslash = CHR 0x5C"

definition startswith :: "string \<Rightarrow> string \<Rightarrow> bool" where
  "startswith pre s = (take (length pre) s = pre)"

definition endswith :: "string \<Rightarrow> string \<Rightarrow> bool" where
  "endswith suf s = (length suf \<le> length s \<and> drop (length s - length suf) s = suf)"

fun contains :: "string \<Rightarrow> string \<Rightarrow> bool" where
  "contains sub [] = (sub = [])"
| "contains sub (c # cs) = (startswith sub (c # cs) \<or> contains sub cs)"

fun split_on :: "char \<Rightarrow> string \<Rightarrow> string list" where
  "split_on sep [] = [[]]"
| "split_on sep (c # cs) =
     (if c = sep then [] # split_on sep cs
      else (case split_on sep cs of
              [] \<Rightarrow> [[c]]
            | w # ws \<Rightarrow> (c # w) # ws))"

definition lower_char :: "char \<Rightarrow> char" where
  "lower_char c =
     (case map_of (zip ''ABCDEFGHIJKLMNOPQRSTUVWXYZ'' ''abcdefghijklmnopqrstuvwxyz'') c of
        None \<Rightarrow> c
      | Some d \<Rightarrow> d)"

definition lower :: "string \<Rightarrow> string" where
  "lower s = map lower_char s"

definition digit_char :: "nat \<Rightarrow> char" where
  "digit_char d = ''0123456789'' ! (d mod 10)"

fun str_nat :: "nat \<Rightarrow> string" where
  "str_nat n = (if n < 10 then [digit_char n] else str_nat (n div 10) @ [digit_char n])"

declare str_nat.simps [simp del]

subsection \<open>Paths\<close>

text \<open>
  A \<^verbatim>\<open>pathlib.Path\<close> is the list of its \<^verbatim>\<open>parts\<close>, on a POSIX system:
  \<open>splitroot\<close> is \<^verbatim>\<open>posixpath.splitroot\<close> (a root of exactly two slashes is kept, any
  other run of leading slashes is one), and the rest is split at \<^verbatim>\<open>/\<close>, dropping empty and
  \<^verbatim>\<open>.\<close> components. A backslash is an ordinary character there.
\<close>

type_synonym path = "string list"

definition splitroot :: "string \<Rightarrow> string \<times> string" where
  "splitroot p =
     (if take 1 p = ''/'' then
        (if take 1 (drop 1 p) = ''/'' \<and> take 1 (drop 2 p) \<noteq> ''/''
         then (take 2 p, drop 2 p)
         else (''/'', drop 1 p))
      else ('''', p))"

definition parts :: "string \<Rightarrow> path" where
  "parts p =
     (case splitroot p of (rt, rel) \<Rightarrow>
        (let tail = filter (\<lambda>x. x \<noteq> [] \<and> x \<noteq> ''.'') (split_on CHR ''/'' rel)
         in if rt = [] then tail else rt # tail))"

text \<open>\<^verbatim>\<open>base / s\<close>: an absolute right operand replaces the left one.\<close>

definition pjoin :: "path \<Rightarrow> string \<Rightarrow> path" where
  "pjoin base s = (if startswith ''/'' s then parts s else base @ parts s)"

text \<open>\<^verbatim>\<open>Path.name\<close> (empty for the root or the empty path) and \<^verbatim>\<open>Path.stem\<close>
  (the name up to its last dot, unless that dot is first or last).\<close>

definition path_name :: "path \<Rightarrow> string" where
  "path_name p =
     (case rev p of
        [] \<Rightarrow> []
      | x # _ \<Rightarrow> if startswith ''/'' x then [] else x)"

definition rfind :: "char \<Rightarrow> string \<Rightarrow> nat option" where
  "rfind c s =
     (if c \<in> set s then Some (length s - Suc (length (takeWhile (\<lambda>x. x \<noteq> c) (rev s))))
      else None)"

definition stem :: "string \<Rightarrow> string" where
  "stem nm =
     (case rfind CHR ''.'' nm of
        None \<Rightarrow> nm
      | Some i \<Rightarrow> if 0 < i \<and> i < length nm - 1 then take i nm else nm)"

fun join_with :: "string \<Rightarrow> string list \<Rightarrow> string" where
  "join_with sep [] = []"
| "join_with sep [x] = x"
| "join_with sep (x # y # ys) = x @ sep @ join_with sep (y # ys)"

definition path_str :: "path \<Rightarrow> string" where
  "path_str p =
     (case p of
        [] \<Rightarrow> ''.''
      | x # xs \<Rightarrow> if startswith ''/'' x then x @ join_with ''/'' xs else join_with ''/'' p)"

subsection \<open>The file system\<close>

text \<open>
  The file system is an association list from paths to nodes; \<open>map_of\<close> reads it, and the
  order of the list is the order in which the system enumerates a directory. A file holds
  its bytes.
\<close>

type_synonym bytes = string

datatype node = Dir | File bytes

type_synonym fs = "(path \<times> node) list"

datatype req_exc = ReqExc (is_connection_error: bool) (is_timeout: bool)

datatype error =
    ValueError_url
  | FileExistsError
  | ConnectionError
  | TimeoutError
  | Exception_download_failed
  | DownloadCancelled
  | ValueError_header
  | AttributeError
  | UnboundLocalError
  | ValueError_not_zip path
  | ValueError_unsafe "string list"
  | BadZipFile
  | RecursionError
  | KeyError
  | OSError
  | Failure error

definition is_dir :: "fs \<Rightarrow> path \<Rightarrow> bool" where
  "is_dir fs p = (p = [] \<or> map_of fs p = Some Dir)"

text \<open>\<open>mkdirs\<close> walks the ancestors from the top: an existing directory is kept, a missing
  one is created, a file in the way is an error.\<close>

fun mkdirs :: "path list \<Rightarrow> fs \<Rightarrow> fs option" where
  "mkdirs [] fs = Some fs"
| "mkdirs (q # qs) fs =
     (case map_of fs q of
        Some (File b) \<Rightarrow> None
      | Some Dir \<Rightarrow> mkdirs qs fs
      | None \<Rightarrow> mkdirs qs (AList.update q Dir fs))"

text \<open>\<^verbatim>\<open>Path.mkdir(parents=True, exist_ok=True)\<close> and \<^verbatim>\<open>os.makedirs\<close>: nothing is
  created when the call fails, since the call fails at the first existing ancestor.\<close>

definition mkdir_p :: "path \<Rightarrow> fs \<Rightarrow> fs option" where
  "mkdir_p p fs = mkdirs (tl (prefixes p)) fs"

text \<open>\<^verbatim>\<open>Path.unlink(missing_ok=True)\<close>: a missing path is no error, a directory is.\<close>

definition unlink_missing_ok :: "path \<Rightarrow> fs \<Rightarrow> error option \<times> fs" where
  "unlink_missing_ok p fs =
     (case map_of fs p of
        None \<Rightarrow> (None, fs)
      | Some (File b) \<Rightarrow> (None, AList.delete p fs)
      | Some Dir \<Rightarrow> (Some OSError, fs))"

text \<open>\<^verbatim>\<open>shutil.rmtree(d, ignore_errors=True)\<close>: removes the directory and all below it;
  anything else is an ignored error.\<close>

definition rmtree :: "path \<Rightarrow> fs \<Rightarrow> fs" where
  "rmtree d fs =
     (case map_of fs d of
        Some Dir \<Rightarrow> filter (\<lambda>e. \<not> prefix d (fst e)) fs
      | _ \<Rightarrow> fs)"

text \<open>\<^verbatim>\<open>open(p, "wb")\<close>: creates or truncates the file; the parent must be a directory and
  the path must not be one.\<close>

definition open_wb :: "path \<Rightarrow> fs \<Rightarrow> fs option" where
  "open_wb p fs =
     (if is_dir fs (butlast p) \<and> map_of fs p \<noteq> Some Dir
      then Some (AList.update p (File []) fs)
      else None)"

subsection \<open>The collaborators\<close>

text \<open>
  The response of the transport: whether \<^verbatim>\<open>raise_for_status\<close> passes, the
  \<^verbatim>\<open>content-length\<close> header, and for a chunk size the chunks that
  \<^verbatim>\<open>iter_content\<close> yields, followed by the exception that ends the iteration, if any;
  \<open>None\<close> when the iteration never ends, so that the loop over it never returns.
  An exception of the transport is a \<^verbatim>\<open>requests.RequestException\<close>, with its membership
  in \<^verbatim>\<open>requests.ConnectionError\<close> and \<^verbatim>\<open>requests.Timeout\<close>.
\<close>

datatype header = Absent | Numeric int | Malformed

record response =
  status_ok :: bool
  content_length :: header
  iter_content :: "int \<Rightarrow> (bytes list \<times> req_exc option) option"

text \<open>What the codec finds in a file: no archive (\<^verbatim>\<open>is_zipfile\<close> is false), an archive
  whose directory cannot be read (\<^verbatim>\<open>ZipFile\<close> raises \<^verbatim>\<open>BadZipFile\<close>), or the
  entries in the order of \<^verbatim>\<open>namelist\<close>, each with its data. The entries are those read
  when the archive is opened, and their data can be read.\<close>

type_synonym archive = "(string \<times> bytes) list"

datatype decoded = NotZip | Corrupt | Zip archive

record env =
  url_path :: "string \<Rightarrow> string option"
  unquote :: "string \<Rightarrow> string"
  http_get :: "string \<Rightarrow> req_exc + response"
  answer :: string
  codec :: "bytes \<Rightarrow> decoded"
  stdout_ok :: bool

record downloader =
  save_dir :: path
  keep_zip :: bool

subsection \<open>utils.get\_filename\_from\_url\<close>

definition basename :: "string \<Rightarrow> string" where
  "basename p = rev (takeWhile (\<lambda>c. c \<noteq> CHR ''/'') (rev p))"

text \<open>\<open>url_path\<close> is \<^verbatim>\<open>urlparse(url).path\<close>, \<open>None\<close> when parsing raises; the
  argument is a string, so the \<^verbatim>\<open>TypeError\<close> branch is not taken.\<close>

definition get_filename_from_url :: "env \<Rightarrow> string \<Rightarrow> error + string" where
  "get_filename_from_url E url =
     (case url_path E url of
        None \<Rightarrow> Inl ValueError_url
      | Some p \<Rightarrow>
          (let decoded_filename = unquote E (basename p)
           in Inr (if decoded_filename = [] then ''downloaded_file.zip'' else decoded_filename)))"

subsection \<open>Downloader.\_is\_safe\_path\<close>

definition is_safe_path :: "string \<Rightarrow> bool" where
  "is_safe_path path =
     (\<not> list_ex (\<lambda>part. startswith [backslash] part \<or> startswith ''/'' part
                          \<or> contains ''..'' part \<or> contains '':'' part)
                  (parts path))"

subsection \<open>Downloader.\_humanize\_size\<close>

text \<open>
  \<^verbatim>\<open>f"{size:.1f}"\<close> of an integer is its decimal digits and \<^verbatim>\<open>.0\<close> (the conversion
  to a float is exact below \<open>2 ^ 53\<close>). The loop divides \<open>current_size\<close> by 1024, which is exact
  in binary floating point, and compares it with 1024; it formats the argument \<open>sz\<close> (the
  source's \<^verbatim>\<open>size\<close>), not \<open>current_size\<close>.
\<close>

definition format_1f :: "int \<Rightarrow> string" where
  "format_1f n = (if n < 0 then ''-'' else []) @ str_nat (nat \<bar>n\<bar>) @ ''.0''"

fun humanize_loop :: "int \<Rightarrow> real \<Rightarrow> string list \<Rightarrow> string" where
  "humanize_loop sz current_size [] = format_1f sz @ ''TB''"
| "humanize_loop sz current_size (unit # units) =
     (if current_size < 1024 then format_1f sz @ unit
      else humanize_loop sz (current_size / 1024) units)"

definition humanize_size :: "int \<Rightarrow> string" where
  "humanize_size sz = humanize_loop sz (real_of_int sz) [''B'', ''KB'', ''MB'', ''GB'']"

subsection \<open>Downloader.\_\_init\_\_ and \_\_exit\_\_\<close>

text \<open>The model has no permissions, so the write-access check of \<^verbatim>\<open>__init__\<close> passes.\<close>

definition init :: "string \<Rightarrow> bool \<Rightarrow> fs \<Rightarrow> (error + downloader) \<times> fs" where
  "init dir keep fs =
     (case mkdir_p (parts dir) fs of
        None \<Rightarrow> (Inl OSError, fs)
      | Some fs' \<Rightarrow> (Inr \<lparr>save_dir = parts dir, keep_zip = keep\<rparr>, fs'))"




subsection \<open>Downloader.download\_file\<close>

text \<open>What the local variable \<^verbatim>\<open>response\<close> holds when the \<^verbatim>\<open>finally\<close> clause
  runs: nothing (\<^verbatim>\<open>requests.get\<close> raised before the assignment), the response of the
  transport, or the string that \<^verbatim>\<open>input\<close> returned (line 135 assigns it to the same
  variable).\<close>

datatype binding = Unbound | Resp response | Str string

text \<open>An exception raised in the \<^verbatim>\<open>try\<close> block: one of the transport, which the
  \<^verbatim>\<open>except\<close> clauses catch, or any other, which they let pass.\<close>

datatype raised = Requests req_exc | Other error

text \<open>\<^verbatim>\<open>if not filename: filename = get_filename_from_url(url)\<close>.\<close>

definition resolve_filename :: "env \<Rightarrow> string \<Rightarrow> string option \<Rightarrow> error + string" where
  "resolve_filename E url filename =
     (case filename of
        None \<Rightarrow> get_filename_from_url E url
      | Some f \<Rightarrow> if f = [] then get_filename_from_url E url else Inr f)"

text \<open>The \<^verbatim>\<open>try\<close> block (lines 128 to 150): the exception it raises, if any, the
  binding of \<^verbatim>\<open>response\<close> and the file system it leaves; \<open>None\<close> when the loop
  over \<^verbatim>\<open>iter_content\<close> never ends. Writes to the local disk succeed.\<close>

definition transfer ::
  "req_exc + response \<Rightarrow> string \<Rightarrow> path \<Rightarrow> int \<Rightarrow> fs
     \<Rightarrow> (raised option \<times> binding \<times> fs) option" where
  "transfer got reply file_path chunk_size fs =
     (case got of
        Inl x \<Rightarrow> Some (Some (Requests x), Unbound, fs)
      | Inr r \<Rightarrow>
          if status_ok r then
            (case content_length r of
               Malformed \<Rightarrow> Some (Some (Other ValueError_header), Resp r, fs)
             | h \<Rightarrow>
                 (let total_size = (case h of Numeric n \<Rightarrow> n | _ \<Rightarrow> 0) in
                  if total_size > 1024 * 1024 * 1024 then
                    (if lower reply = ''y'' then
                       (case open_wb file_path fs of
                          None \<Rightarrow> Some (Some (Other OSError), Str reply, fs)
                        | Some fs1 \<Rightarrow> Some (Some (Other AttributeError), Str reply, fs1))
                     else Some (Some (Other DownloadCancelled), Str reply, fs))
                  else
                    (case open_wb file_path fs of
                       None \<Rightarrow> Some (Some (Other OSError), Resp r, fs)
                     | Some fs1 \<Rightarrow>
                         (case iter_content r chunk_size of
                            None \<Rightarrow> None
                          | Some (chunks, stop) \<Rightarrow>
                              Some (map_option Requests stop, Resp r,
                                    AList.update file_path (File (concat chunks)) fs1)))))
          else Some (Some (Requests (ReqExc False False)), Resp r, fs))"

text \<open>The \<^verbatim>\<open>except\<close> clauses, in the order of the source: the first whose class the
  exception belongs to removes the destination file, if it exists, and raises the mapped
  error.\<close>

definition map_exc :: "req_exc \<Rightarrow> error" where
  "map_exc x =
     (if is_connection_error x then ConnectionError
      else if is_timeout x then TimeoutError
      else Exception_download_failed)"

definition handle_exc :: "raised option \<Rightarrow> path \<Rightarrow> fs \<Rightarrow> error option \<times> fs" where
  "handle_exc raised_exc file_path fs =
     (case raised_exc of
        None \<Rightarrow> (None, fs)
      | Some (Other e) \<Rightarrow> (Some e, fs)
      | Some (Requests x) \<Rightarrow>
          (case unlink_missing_ok file_path fs of
             (Some e, fs') \<Rightarrow> (Some e, fs')
           | (None, fs') \<Rightarrow> (Some (map_exc x), fs')))"

text \<open>\<^verbatim>\<open>finally: response.close()\<close>: an unbound local raises
  \<^verbatim>\<open>UnboundLocalError\<close>, a string has no \<^verbatim>\<open>close\<close>.\<close>

definition close_binding :: "binding \<Rightarrow> error option" where
  "close_binding b =
     (case b of
        Unbound \<Rightarrow> Some UnboundLocalError
      | Str s \<Rightarrow> Some AttributeError
      | Resp r \<Rightarrow> None)"

text \<open>An exception raised by the \<^verbatim>\<open>finally\<close> clause replaces the pending one. The
  result is \<open>None\<close> when the call never returns.\<close>

definition download_file ::
  "env \<Rightarrow> downloader \<Rightarrow> string \<Rightarrow> string option \<Rightarrow> int \<Rightarrow> fs
     \<Rightarrow> ((error + path) \<times> fs) option" where
  "download_file E self url filename chunk_size fs =
     (case resolve_filename E url filename of
        Inl e \<Rightarrow> Some (Inl e, fs)
      | Inr fname \<Rightarrow>
          (let file_path = pjoin (save_dir self) fname in
           if map_of fs file_path = None then
             (case transfer (http_get E url) (answer E) file_path chunk_size fs of
                None \<Rightarrow> None
              | Some (raised_exc, bound, fs1) \<Rightarrow>
                  (case handle_exc raised_exc file_path fs1 of
                     (pending, fs2) \<Rightarrow>
                       (case close_binding bound of
                          Some e \<Rightarrow> Some (Inl e, fs2)
                        | None \<Rightarrow>
                            (case pending of
                               Some e \<Rightarrow> Some (Inl e, fs2)
                             | None \<Rightarrow> Some (Inr file_path, fs2)))))
           else Some (Inl FileExistsError, fs)))"

subsection \<open>Downloader.extract\_zip\<close>

text \<open>
  \<^verbatim>\<open>ZipFile.extract(member, root)\<close>: the entry of that name (the last one, when a name
  occurs twice) goes to the root joined with the name's components, without the empty ones,
  \<^verbatim>\<open>.\<close> and \<^verbatim>\<open>..\<close>. Missing upper directories are created. A name ending in a slash is
  a directory; any other is a file, written over what is there. A file entry whose name has
  no component left is an error.
\<close>

definition arcname :: "string \<Rightarrow> path" where
  "arcname member =
     filter (\<lambda>x. x \<noteq> [] \<and> x \<noteq> ''.'' \<and> x \<noteq> ''..'') (split_on CHR ''/'' member)"

definition zip_extract :: "archive \<Rightarrow> string \<Rightarrow> path \<Rightarrow> fs \<Rightarrow> error option \<times> fs" where
  "zip_extract ar member extract_path fs =
     (case map_of (rev ar) member of
        None \<Rightarrow> (Some KeyError, fs)
      | Some data \<Rightarrow>
          (let targetpath = extract_path @ arcname member; upperdirs = butlast targetpath in
           if arcname member = [] \<and> \<not> endswith ''/'' member then (Some OSError, fs)
           else
             (case (if upperdirs = [] then Some fs
                    else if map_of fs upperdirs = None then mkdir_p upperdirs fs
                    else Some fs) of
                None \<Rightarrow> (Some OSError, fs)
              | Some fs1 \<Rightarrow>
                  if endswith ''/'' member then
                    (case map_of fs1 targetpath of
                       Some Dir \<Rightarrow> (None, fs1)
                     | Some (File b) \<Rightarrow> (Some OSError, fs1)
                     | None \<Rightarrow>
                         if is_dir fs1 upperdirs
                         then (None, AList.update targetpath Dir fs1)
                         else (Some OSError, fs1))
                  else if is_dir fs1 upperdirs \<and> map_of fs1 targetpath \<noteq> Some Dir
                  then (None, AList.update targetpath (File data) fs1)
                  else (Some OSError, fs1))))"

text \<open>The body of the loop over \<^verbatim>\<open>namelist\<close> (lines 213 to 224). \<open>nested\<close> is the
  recursive call \<^verbatim>\<open>self.extract_zip(nested_path, nested_extract_path)\<close>; the
  \<^verbatim>\<open>finally\<close> clause runs whatever it returns.\<close>

definition process_member ::
  "(path \<Rightarrow> path \<Rightarrow> fs \<Rightarrow> (error + path) \<times> fs) \<Rightarrow> bool \<Rightarrow> archive \<Rightarrow> path \<Rightarrow> string \<Rightarrow> fs
     \<Rightarrow> error option \<times> fs" where
  "process_member nested keep ar extract_path member fs =
     (case zip_extract ar member extract_path fs of
        (Some e, fs1) \<Rightarrow> (Some e, fs1)
      | (None, fs1) \<Rightarrow>
          if endswith ''.zip'' (lower member) then
            (let nested_path = pjoin extract_path member;
                 nested_extract_path = pjoin extract_path (stem (path_name (parts member)))
             in case nested nested_path nested_extract_path fs1 of
                  (r, fs2) \<Rightarrow>
                    (case (if keep then (None, fs2) else unlink_missing_ok nested_path fs2) of
                       (Some e, fs3) \<Rightarrow> (Some e, fs3)
                     | (None, fs3) \<Rightarrow>
                         (case r of
                            Inl e \<Rightarrow> (Some e, fs3)
                          | Inr d \<Rightarrow> (None, fs3))))
          else (None, fs1))"

fun extract_members ::
  "(path \<Rightarrow> path \<Rightarrow> fs \<Rightarrow> (error + path) \<times> fs) \<Rightarrow> bool \<Rightarrow> archive \<Rightarrow> path \<Rightarrow> string list \<Rightarrow> fs
     \<Rightarrow> error option \<times> fs" where
  "extract_members nested keep ar extract_path [] fs = (None, fs)"
| "extract_members nested keep ar extract_path (member # members) fs =
     (case process_member nested keep ar extract_path member fs of
        (Some e, fs1) \<Rightarrow> (Some e, fs1)
      | (None, fs1) \<Rightarrow> extract_members nested keep ar extract_path members fs1)"

definition decode :: "env \<Rightarrow> fs \<Rightarrow> path \<Rightarrow> decoded" where
  "decode E fs zip_path =
     (case map_of fs zip_path of
        Some (File b) \<Rightarrow> codec E b
      | _ \<Rightarrow> NotZip)"

text \<open>Lines 194 to 197: the destination is the given one, or the session directory joined
  with the stem of the archive's name.\<close>

definition resolve_extract_path :: "downloader \<Rightarrow> path \<Rightarrow> path option \<Rightarrow> path" where
  "resolve_extract_path self zip_path extract_path =
     (case extract_path of
        None \<Rightarrow> pjoin (save_dir self) (stem (path_name zip_path))
      | Some p \<Rightarrow> p)"

text \<open>
  The first argument is the number of nested calls of \<^verbatim>\<open>extract_zip\<close> the interpreter
  still allows: an archive can hold itself, and Python then raises \<^verbatim>\<open>RecursionError\<close>.
\<close>

fun extract_zip ::
  "nat \<Rightarrow> env \<Rightarrow> downloader \<Rightarrow> path \<Rightarrow> path option \<Rightarrow> fs \<Rightarrow> (error + path) \<times> fs" where
  "extract_zip 0 E self zip_path extract_path fs = (Inl RecursionError, fs)"
| "extract_zip (Suc depth) E self zip_path extract_path fs =
     (case decode E fs zip_path of
        NotZip \<Rightarrow> (Inl (ValueError_not_zip zip_path), fs)
      | dec \<Rightarrow>
          (let ep = resolve_extract_path self zip_path extract_path
           in case mkdir_p ep fs of
                None \<Rightarrow> (Inl OSError, fs)
              | Some fs1 \<Rightarrow>
                  (case dec of
                     Zip ar \<Rightarrow>
                       (let unsafe_paths = filter (\<lambda>name. \<not> is_safe_path name) (map fst ar) in
                        if unsafe_paths = [] then
                          (case extract_members
                                  (\<lambda>np nep f. extract_zip depth E self np (Some nep) f)
                                  (keep_zip self) ar ep (map fst ar) fs1 of
                             (Some e, fs2) \<Rightarrow> (Inl e, fs2)
                           | (None, fs2) \<Rightarrow>
                               (case (if keep_zip self then (None, fs2)
                                      else unlink_missing_ok zip_path fs2) of
                                  (Some e, fs3) \<Rightarrow> (Inl e, fs3)
                                | (None, fs3) \<Rightarrow> (Inr ep, fs3)))
                        else (Inl (ValueError_unsafe unsafe_paths), fs1))
                   | _ \<Rightarrow> (Inl BadZipFile, fs1))))"

subsection \<open>Downloader.\_format\_extracted\_files and download\_and\_extract\<close>

definition rglob :: "path \<Rightarrow> fs \<Rightarrow> path list" where
  "rglob d fs =
     (if is_dir fs d then remdups (filter (strict_prefix d) (map fst fs)) else [])"

definition format_extracted_files :: "path \<Rightarrow> path list \<Rightarrow> fs \<Rightarrow> string list" where
  "format_extracted_files base_dir files fs =
     concat (map (\<lambda>file_path.
        case map_of fs file_path of
          Some (File b) \<Rightarrow>
            if prefix base_dir file_path
            then [path_str (drop (length base_dir) file_path)
                    @ '' ('' @ humanize_size (int (length b)) @ '')'']
            else []
        | _ \<Rightarrow> []) (sort files))"

text \<open>The \<^verbatim>\<open>except\<close> block of \<^verbatim>\<open>download_and_extract\<close> (lines 288 to 294), entered
  with \<^verbatim>\<open>zip_path\<close> bound; \<^verbatim>\<open>extract_dir\<close> is bound only when
  \<^verbatim>\<open>extract_zip\<close> has returned.\<close>

definition rollback :: "error \<Rightarrow> path \<Rightarrow> path option \<Rightarrow> fs \<Rightarrow> error \<times> fs" where
  "rollback e zip_path extract_dir fs =
     (case unlink_missing_ok zip_path fs of
        (Some e', fs') \<Rightarrow> (e', fs')
      | (None, fs') \<Rightarrow>
          (Failure e, case extract_dir of None \<Rightarrow> fs' | Some d \<Rightarrow> rmtree d fs'))"

text \<open>\<open>stdout_ok\<close> says whether printing the list succeeds; nothing else after the
  extraction can raise in this model. The result is \<open>None\<close> when the download never
  returns.\<close>

definition download_and_extract ::
  "nat \<Rightarrow> env \<Rightarrow> downloader \<Rightarrow> string \<Rightarrow> path option \<Rightarrow> fs
     \<Rightarrow> ((error + string \<times> string list) \<times> fs) option" where
  "download_and_extract depth E self url extract_path fs =
     (case download_file E self url None 8192 fs of
        None \<Rightarrow> None
      | Some (Inl e, fs1) \<Rightarrow> Some (Inl (Failure e), fs1)
      | Some (Inr zip_path, fs1) \<Rightarrow>
          (case extract_zip depth E self zip_path extract_path fs1 of
             (Inl e, fs2) \<Rightarrow>
               (case rollback e zip_path None fs2 of (e', fs3) \<Rightarrow> Some (Inl e', fs3))
           | (Inr extract_dir, fs2) \<Rightarrow>
               (let formatted_files =
                      format_extracted_files extract_dir (rglob extract_dir fs2) fs2
                in if stdout_ok E
                   then Some (Inr (path_str extract_dir, formatted_files), fs2)
                   else (case rollback OSError zip_path (Some extract_dir) fs2 of
                           (e', fs3) \<Rightarrow> Some (Inl e', fs3)))))"

subsection \<open>Predicates of the statements\<close>












subsection \<open>Concrete scenarios\<close>

text \<open>
  A small world for the theorems that evaluate the code: a codec that knows five archives by
  their bytes, a transport that answers every request in the same way, a URL parser that
  drops scheme and host, and a session directory \<^verbatim>\<open>dl\<close> with the retention policy of
  the default (discard).
\<close>

definition demo_codec :: "bytes \<Rightarrow> decoded" where
  "demo_codec b =
     (if b = ''OUTER'' then Zip [(''a.txt'', ''hi''), (''sub/inner.zip'', ''INNER'')]
      else if b = ''INNER'' then Zip [(''f.txt'', ''hello'')]
      else if b = ''EVIL'' then Zip [(''good.txt'', ''ok''), (''../escape.txt'', ''x'')]
      else if b = ''BROKEN'' then Zip [(''a.txt'', ''hi''), (''bad.zip'', ''junk'')]
      else if b = ''HIDDEN'' then Zip [(''inner.zip'', ''INNER''), (''b.zip/.'', ''INNER'')]
      else NotZip)"

text \<open>
  The transport of the scenarios iterates over a body as \<^verbatim>\<open>urllib3\<close> does over the
  response of a server that closes the connection after the body (\<^verbatim>\<open>stream\<close> reads
  \<^verbatim>\<open>amt\<close> bytes at a time and yields what is not empty, until the stream is closed):
  for a positive chunk size it yields the body in pieces of that many bytes; for a negative
  one the read goes to the end of the body, which comes as one chunk; at chunk size 0 every
  read returns no bytes and the stream is never closed, so the iteration never ends.
  \<open>stop\<close> is the exception raised after the last chunk, if any.
\<close>

fun chop :: "nat \<Rightarrow> bytes \<Rightarrow> bytes list" where
  "chop n xs = (if n = 0 \<or> xs = [] then [] else take n xs # chop n (drop n xs))"

declare chop.simps [simp del]

definition demo_response :: "bytes \<Rightarrow> req_exc option \<Rightarrow> header \<Rightarrow> response" where
  "demo_response body stop h =
     \<lparr>status_ok = True, content_length = h,
      iter_content =
        (\<lambda>n. if n = 0 then None
             else Some (chop (if n < 0 then length body else nat n) body, stop))\<rparr>"

definition demo_env :: "req_exc + response \<Rightarrow> string \<Rightarrow> env" where
  "demo_env got reply =
     \<lparr>url_path = (\<lambda>u. Some (dropWhile (\<lambda>c. c \<noteq> CHR ''/'') (drop 7 u))),
      unquote = (\<lambda>s. s),
      http_get = (\<lambda>u. got),
      answer = reply,
      codec = demo_codec,
      stdout_ok = True\<rparr>"

definition demo_self :: downloader where
  "demo_self = \<lparr>save_dir = [''dl''], keep_zip = False\<rparr>"

definition demo_fs :: fs where
  "demo_fs = [([''dl''], Dir)]"

lemmas demo_defs = demo_env_def demo_response_def demo_self_def demo_fs_def demo_codec_def
lemmas string_defs = startswith_def endswith_def lower_def lower_char_def backslash_def
lemmas path_defs = pjoin_def parts_def splitroot_def path_name_def stem_def rfind_def basename_def
lemmas fs_defs = is_dir_def mkdir_p_def unlink_missing_ok_def open_wb_def rmtree_def
lemmas download_defs = download_file_def resolve_filename_def get_filename_from_url_def
  transfer_def handle_exc_def map_exc_def close_binding_def
lemmas extract_defs = decode_def resolve_extract_path_def zip_extract_def arcname_def process_member_def
  rollback_def download_and_extract_def

section \<open>The size string\<close>

text \<open>
  Claim C4 says that the size string is the byte count divided by 1024 to the power of the
  chosen unit, with one decimal, so that 2048 bytes read \<^verbatim>\<open>2.0KB\<close>. The loop of
  \<^verbatim>\<open>_humanize_size\<close> divides \<^verbatim>\<open>current_size\<close> to choose the unit but formats
  \<^verbatim>\<open>size\<close>, the undivided argument: for 2048 bytes the code returns
  \<^verbatim>\<open>2048.0KB\<close>.
\<close>

theorem humanize_size_2048: "humanize_size 2048 = ''2048.0KB''"
  by (simp add: humanize_size_def format_1f_def str_nat.simps digit_char_def)

text \<open>For every size the digits are those of the argument; only the unit depends on the
  division.\<close>

lemma humanize_size_formats_argument:
  "humanize_size n = format_1f n @
     (if n < 1024 then ''B'' else if n < 1024 * 1024 then ''KB''
      else if n < 1024 * 1024 * 1024 then ''MB''
      else if n < 1024 * 1024 * 1024 * 1024 then ''GB'' else ''TB'')"
proof -
  have a: "real_of_int n < 1024 \<longleftrightarrow> n < 1024" by linarith
  have "real_of_int n / 1024 < 1024 \<longleftrightarrow> real_of_int n < 1024 * 1024"
    by (simp add: divide_less_eq)
  also have "\<dots> \<longleftrightarrow> n < 1024 * 1024" by linarith
  finally have b: "real_of_int n / 1024 < 1024 \<longleftrightarrow> n < 1024 * 1024" .
  have "real_of_int n / 1024 / 1024 < 1024 \<longleftrightarrow> real_of_int n < 1024 * 1024 * 1024"
    by (simp add: divide_less_eq)
  also have "\<dots> \<longleftrightarrow> n < 1024 * 1024 * 1024" by linarith
  finally have c: "real_of_int n / 1024 / 1024 < 1024 \<longleftrightarrow> n < 1024 * 1024 * 1024" .
  have "real_of_int n / 1024 / 1024 / 1024 < 1024
        \<longleftrightarrow> real_of_int n < 1024 * 1024 * 1024 * 1024"
    by (simp add: divide_less_eq)
  also have "\<dots> \<longleftrightarrow> n < 1024 * 1024 * 1024 * 1024" by linarith
  finally have d: "real_of_int n / 1024 / 1024 / 1024 < 1024
        \<longleftrightarrow> n < 1024 * 1024 * 1024 * 1024" .
  show ?thesis
    unfolding humanize_size_def humanize_loop.simps a b c d by auto
qed

section \<open>The safety of a path\<close>

lemma startswith_prefix: "startswith a s \<longleftrightarrow> prefix a s"
proof
  assume "startswith a s"
  then have "take (length a) s = a" by (simp add: startswith_def)
  then show "prefix a s" by (metis take_is_prefix)
next
  assume "prefix a s"
  then obtain z where "s = a @ z" by (auto simp: prefix_def)
  then show "startswith a s" by (simp add: startswith_def)
qed

lemma split_on_not_Nil [simp]: "split_on sep s \<noteq> []"
  by (induction s) (auto split: list.splits)

lemma hd_split_on: "\<exists>ws. split_on sep s = takeWhile (\<lambda>c. c \<noteq> sep) s # ws"
  by (induction s) (auto split: list.splits)

lemma split_on_no_sep: "seg \<in> set (split_on sep s) \<Longrightarrow> sep \<notin> set seg"
  by (induction s arbitrary: seg) (auto split: list.splits if_splits)

lemma prefix_takeWhile:
  "\<forall>x \<in> set a. P x \<Longrightarrow> prefix a (takeWhile P s) \<longleftrightarrow> prefix a s"
proof (induction s arbitrary: a)
  case Nil
  then show ?case by simp
next
  case (Cons c cs)
  then show ?case by (cases a) auto
qed

lemma contains_split_on:
  assumes "sub \<noteq> []" and "sep \<notin> set sub"
  shows "contains sub s \<longleftrightarrow> (\<exists>seg \<in> set (split_on sep s). contains sub seg)"
proof (induction s)
  case Nil
  then show ?case using assms by simp
next
  case (Cons c cs)
  obtain ws where ws: "split_on sep cs = takeWhile (\<lambda>c. c \<noteq> sep) cs # ws"
    using hd_split_on by blast
  show ?case
  proof (cases "c = sep")
    case True
    have "\<not> startswith sub (sep # cs)"
      using assms by (cases sub) (auto simp: startswith_prefix)
    with True Cons assms show ?thesis by simp
  next
    case False
    have "prefix sub (takeWhile (\<lambda>c. c \<noteq> sep) (c # cs)) \<longleftrightarrow> prefix sub (c # cs)"
      using assms(2) by (intro prefix_takeWhile) auto
    then have "startswith sub (c # takeWhile (\<lambda>c. c \<noteq> sep) cs) \<longleftrightarrow> startswith sub (c # cs)"
      using False by (simp add: startswith_prefix)
    with False Cons ws show ?thesis by auto
  qed
qed


lemma splitroot_relative: "\<not> startswith ''/'' p \<Longrightarrow> splitroot p = ('''', p)"
  by (simp add: splitroot_def startswith_def)

lemma splitroot_absolute:
  "startswith ''/'' p \<Longrightarrow> \<exists>rt rel. splitroot p = (rt, rel) \<and> startswith ''/'' rt"
  by (cases p) (auto simp: splitroot_def startswith_def)

lemma unsafe_on_segments:
  "(\<exists>seg \<in> set (filter (\<lambda>x. x \<noteq> [] \<and> x \<noteq> ''.'') (split_on CHR ''/'' p)).
       startswith [backslash] seg \<or> startswith ''/'' seg \<or> contains ''..'' seg \<or> contains '':'' seg)
   \<longleftrightarrow> ((\<exists>seg \<in> set (split_on CHR ''/'' p). startswith [backslash] seg)
        \<or> contains ''..'' p \<or> contains '':'' p)"
proof -
  have a: "\<not> startswith ''/'' seg" if "seg \<in> set (split_on CHR ''/'' p)" for seg
    using split_on_no_sep [OF that] by (cases seg) (auto simp: startswith_def)
  have b: "contains ''..'' p \<longleftrightarrow> (\<exists>seg \<in> set (split_on CHR ''/'' p). contains ''..'' seg)"
    by (rule contains_split_on) simp_all
  have c: "contains '':'' p \<longleftrightarrow> (\<exists>seg \<in> set (split_on CHR ''/'' p). contains '':'' seg)"
    by (rule contains_split_on) simp_all
  have d: "\<not> (startswith [backslash] seg \<or> contains ''..'' seg \<or> contains '':'' seg)"
    if "seg = [] \<or> seg = ''.''" for seg
    using that by (auto simp: startswith_def backslash_def)
  show ?thesis unfolding b c using a d by auto
qed

lemma unsafe_parts:
  "(\<not> is_safe_path p) =
     (\<exists>part \<in> set (parts p). startswith [backslash] part \<or> startswith ''/'' part
        \<or> contains ''..'' part \<or> contains '':'' part)"
  by (simp add: is_safe_path_def list_ex_iff)

lemma unsafe_string:
  "(\<not> is_safe_path p) =
     (startswith ''/'' p \<or> (\<exists>seg \<in> set (split_on CHR ''/'' p). startswith [backslash] seg)
        \<or> contains ''..'' p \<or> contains '':'' p)"
proof (cases "startswith ''/'' p")
  case True
  from splitroot_absolute [OF this] obtain rt rel where
    "splitroot p = (rt, rel)" "startswith ''/'' rt" by blast
  then have "\<not> is_safe_path p"
    by (auto simp: unsafe_parts parts_def Let_def startswith_def)
  with True show ?thesis by simp
next
  case False
  then have "parts p = filter (\<lambda>x. x \<noteq> [] \<and> x \<noteq> ''.'') (split_on CHR ''/'' p)"
    by (simp add: parts_def splitroot_relative)
  with False show ?thesis
    unfolding unsafe_parts by (simp only: unsafe_on_segments) simp
qed

text \<open>
  Claim C3: \<^verbatim>\<open>_is_safe_path\<close> reports a path unsafe exactly when one of its segments
  (the \<^verbatim>\<open>parts\<close> of the path) starts with a backslash or a slash, contains \<^verbatim>\<open>..\<close> or
  contains a colon. On the string itself that is: the path starts with a slash, or one of
  its components between slashes starts with a backslash, or the path contains \<^verbatim>\<open>..\<close>
  or a colon. So every path that contains \<^verbatim>\<open>..\<close> or a colon, or starts with a slash or
  a backslash, is unsafe, and \<^verbatim>\<open>data/file.txt\<close> is safe. The validator is a function of
  its argument alone.
\<close>

theorem is_safe_path_iff:
  "(\<not> is_safe_path p) =
     (\<exists>part \<in> set (parts p). startswith [backslash] part \<or> startswith ''/'' part
        \<or> contains ''..'' part \<or> contains '':'' part)
   \<and> (\<not> is_safe_path p) =
     (startswith ''/'' p \<or> (\<exists>seg \<in> set (split_on CHR ''/'' p). startswith [backslash] seg)
        \<or> contains ''..'' p \<or> contains '':'' p)
   \<and> (contains ''..'' p \<longrightarrow> \<not> is_safe_path p)
   \<and> (startswith ''/'' p \<longrightarrow> \<not> is_safe_path p)
   \<and> (startswith [backslash] p \<longrightarrow> \<not> is_safe_path p)
   \<and> (contains '':'' p \<longrightarrow> \<not> is_safe_path p)
   \<and> is_safe_path ''data/file.txt''"
proof -
  note A = unsafe_parts [of p]
  note B = unsafe_string [of p]
  have C: "startswith [backslash] p \<Longrightarrow> \<exists>seg \<in> set (split_on CHR ''/'' p). startswith [backslash] seg"
  proof -
    assume s: "startswith [backslash] p"
    obtain ws where ws: "split_on CHR ''/'' p = takeWhile (\<lambda>c. c \<noteq> CHR ''/'') p # ws"
      using hd_split_on by blast
    from s have "startswith [backslash] (takeWhile (\<lambda>c. c \<noteq> CHR ''/'') p)"
      by (cases p) (auto simp: startswith_def backslash_def)
    with ws show ?thesis by auto
  qed
  have D: "is_safe_path ''data/file.txt''"
    by (simp add: is_safe_path_def parts_def splitroot_def startswith_def backslash_def)
  from A B C D show ?thesis by blast
qed

theorem is_safe_path_iff_witness:
  "\<not> is_safe_path ''../escape.txt'' \<and> contains ''..'' ''../escape.txt''
   \<and> \<not> is_safe_path ''C:/x'' \<and> is_safe_path ''data/file.txt''"
  using is_safe_path_iff [of "''../escape.txt''"] is_safe_path_iff [of "''C:/x''"]
  by (simp add: startswith_def)

section \<open>The download\<close>

text \<open>
  Claim C5 says that a download of more than 1 GiB that the operator declines fails with
  \<^verbatim>\<open>DownloadCancelled\<close>, writes nothing, and that no other error replaces it. At a
  reported size of 2 GiB and the reply \<^verbatim>\<open>n\<close> nothing is written, but the call fails with
  \<^verbatim>\<open>AttributeError\<close>: line 135 has bound \<^verbatim>\<open>response\<close> to the reply, a string,
  and the \<^verbatim>\<open>finally\<close> clause calls \<^verbatim>\<open>close\<close> on it, which replaces the pending
  \<^verbatim>\<open>DownloadCancelled\<close>.
\<close>

theorem cancelled_download_raises_attribute_error:
  "download_file (demo_env (Inr (demo_response ''OUTER'' None (Numeric 2147483648))) ''n'')
     demo_self ''http://host/files/data.zip'' None 8192 demo_fs
   = Some (Inl AttributeError, demo_fs)"
  by (simp add: download_defs demo_defs string_defs path_defs fs_defs Let_def)

text \<open>
  Claim C6 says that a failure of the transport is raised as the corresponding error
  (\<^verbatim>\<open>ConnectionError\<close>, \<^verbatim>\<open>TimeoutError\<close> or the generic one) and leaves no file at the
  destination. When \<^verbatim>\<open>requests.get\<close> itself raises \<^verbatim>\<open>requests.ConnectionError\<close>, no
  file is left, but the error that leaves \<^verbatim>\<open>download_file\<close> is
  \<^verbatim>\<open>UnboundLocalError\<close>: \<^verbatim>\<open>response\<close> was never assigned, and the \<^verbatim>\<open>finally\<close>
  clause reads it after the handler has raised \<^verbatim>\<open>ConnectionError\<close>.
\<close>

theorem connect_failure_raises_unbound_local_error:
  "download_file (demo_env (Inl (ReqExc True False)) []) demo_self
     ''http://host/files/data.zip'' None 8192 demo_fs
   = Some (Inl UnboundLocalError, demo_fs)"
  by (simp add: download_defs demo_defs string_defs path_defs fs_defs Let_def)

text \<open>The two failures in general, and what holds of the claims: whenever
  \<^verbatim>\<open>requests.get\<close> raises, the error is \<^verbatim>\<open>UnboundLocalError\<close>; whenever a
  download above 1 GiB is declined, it is \<^verbatim>\<open>AttributeError\<close>; and when the transport
  fails during the transfer of a body that passed the size gate, the mapped error is raised
  and the destination is gone.\<close>

lemma download_file_get_raises:
  assumes "resolve_filename E url filename = Inr fname"
    and "map_of fs (pjoin (save_dir self) fname) = None"
    and "http_get E url = Inl x"
  shows "download_file E self url filename chunk_size fs = Some (Inl UnboundLocalError, fs)"
  using assms
  by (simp add: download_file_def transfer_def handle_exc_def unlink_missing_ok_def
        close_binding_def)

lemma download_file_declined:
  assumes "resolve_filename E url filename = Inr fname"
    and "map_of fs (pjoin (save_dir self) fname) = None"
    and "http_get E url = Inr r" and "status_ok r" and "content_length r = Numeric n"
    and "1024 * 1024 * 1024 < n" and "lower (answer E) \<noteq> ''y''"
  shows "download_file E self url filename chunk_size fs = Some (Inl AttributeError, fs)"
  using assms
  by (simp add: download_file_def transfer_def handle_exc_def close_binding_def)

lemma download_file_transfer_fails:
  assumes "resolve_filename E url filename = Inr fname"
    and "map_of fs (pjoin (save_dir self) fname) = None"
    and "http_get E url = Inr r" and "status_ok r"
    and "content_length r = Absent \<or> (\<exists>n. content_length r = Numeric n \<and> n \<le> 1024 * 1024 * 1024)"
    and "is_dir fs (butlast (pjoin (save_dir self) fname))"
    and "iter_content r chunk_size = Some (chunks, Some x)"
  shows "\<exists>fs'. download_file E self url filename chunk_size fs = Some (Inl (map_exc x), fs')
           \<and> map_of fs' (pjoin (save_dir self) fname) = None"
  using assms
  by (auto simp: download_file_def transfer_def handle_exc_def close_binding_def open_wb_def
        unlink_missing_ok_def update_conv' delete_conv' Let_def)

text \<open>
  Claim C7: when the destination path, computed from the given or the derived file name,
  already exists, \<^verbatim>\<open>download_file\<close> fails with \<^verbatim>\<open>FileExistsError\<close> and the file
  system is the one it started from: nothing is written, and what is at the destination is
  unchanged.
\<close>

theorem download_file_existing:
  assumes "resolve_filename E url filename = Inr fname"
    and "map_of fs (pjoin (save_dir self) fname) = Some n"
  shows "download_file E self url filename chunk_size fs = Some (Inl FileExistsError, fs)"
  using assms by (simp add: download_file_def)

theorem download_file_existing_witness:
  "download_file (demo_env (Inr (demo_response ''OUTER'' None Absent)) []) demo_self
     ''http://host/files/data.zip'' None 8192 [([''dl''], Dir), ([''dl'', ''data.zip''], File ''old'')]
   = Some (Inl FileExistsError, [([''dl''], Dir), ([''dl'', ''data.zip''], File ''old'')])"
proof -
  have r: "resolve_filename (demo_env (Inr (demo_response ''OUTER'' None Absent)) [])
             ''http://host/files/data.zip'' None = Inr ''data.zip''"
    by (simp add: download_defs demo_defs path_defs)
  have m: "map_of [([''dl''], Dir), ([''dl'', ''data.zip''], File ''old'')]
             (pjoin (save_dir demo_self) ''data.zip'') = Some (File ''old'')"
    by (simp add: demo_defs path_defs string_defs)
  show ?thesis by (rule download_file_existing [OF r m])
qed

lemma chop_once: "0 < n \<Longrightarrow> xs \<noteq> [] \<Longrightarrow> length xs \<le> n \<Longrightarrow> chop n xs = [xs]"
  by (subst chop.simps, subst chop.simps) simp

lemma concat_chop: "0 < n \<Longrightarrow> concat (chop n xs) = xs"
proof (induction n xs rule: chop.induct)
  case (1 n xs)
  show ?case
  proof (cases "xs = []")
    case True
    then show ?thesis by (subst chop.simps) simp
  next
    case False
    with 1 have "concat (chop n (drop n xs)) = drop n xs" by simp
    with False 1(2) show ?thesis by (subst chop.simps) simp
  qed
qed

text \<open>
  Claim C8 says that a chunk size of zero or less is rejected as invalid input. The code
  never looks at the chunk size. With the chunk size \<open>-1\<close> and a transport that then yields
  the body as one chunk, the call returns the path of the file, which holds the whole body.
\<close>

theorem negative_chunk_size_succeeds:
  "download_file (demo_env (Inr (demo_response ''OUTER'' None Absent)) []) demo_self
     ''http://host/files/data.zip'' None (- 1) demo_fs
   = Some (Inr [''dl'', ''data.zip''],
           [([''dl''], Dir), ([''dl'', ''data.zip''], File ''OUTER'')])"
  by (simp add: download_defs demo_defs string_defs path_defs fs_defs chop_once Let_def)

text \<open>At chunk size 0 no error is raised either: the iteration of that transport never
  ends, and the call with it. In general the call does not return exactly when it reaches the
  loop over \<^verbatim>\<open>iter_content\<close> and the iteration never ends.\<close>

lemma chunk_size_zero_never_returns:
  "download_file (demo_env (Inr (demo_response ''OUTER'' None Absent)) []) demo_self
     ''http://host/files/data.zip'' None 0 demo_fs = None"
  by (simp add: download_defs demo_defs string_defs path_defs fs_defs Let_def)

lemma download_file_returns:
  assumes "\<And>r. http_get E url = Inr r \<Longrightarrow> iter_content r chunk_size \<noteq> None"
  shows "\<exists>res. download_file E self url filename chunk_size fs = Some res"
proof -
  have t: "\<exists>t. transfer (http_get E url) a p chunk_size f = Some t" for a p f
    using assms by (cases "http_get E url")
      (auto simp: transfer_def Let_def split: header.splits option.splits)
  show ?thesis
  proof (cases "resolve_filename E url filename")
    case (Inl e)
    then show ?thesis by (simp add: download_file_def)
  next
    case (Inr fname)
    from t obtain ro b f1 where
      "transfer (http_get E url) (answer E) (pjoin (save_dir self) fname) chunk_size fs
       = Some (ro, b, f1)"
      by (metis prod_cases3)
    with Inr show ?thesis
      by (simp add: download_file_def Let_def split: prod.splits option.splits)
  qed
qed

text \<open>
  Claim C8, amended: \<^verbatim>\<open>download_file\<close> does not check the chunk size; it hands it to
  \<^verbatim>\<open>iter_content\<close> and to nothing else, and raises no error of its own for a chunk size
  of zero or less. The outcome for a chunk size, zero and negative ones included, is the
  outcome for any other chunk size at which the iteration of the transport behaves in the
  same way (the same chunks and the same end, or no end).
\<close>

theorem download_file_chunk_size_unchecked:
  assumes "\<And>r. http_get E url = Inr r \<Longrightarrow> iter_content r c = iter_content r c'"
  shows "download_file E self url filename c fs = download_file E self url filename c' fs"
proof -
  have eq: "transfer (http_get E url) a p c f = transfer (http_get E url) a p c' f" for a p f
    using assms by (cases "http_get E url")
      (auto simp: transfer_def Let_def split: header.splits option.splits)
  show ?thesis unfolding download_file_def eq by (rule refl)
qed

theorem download_file_chunk_size_unchecked_witness:
  "download_file (demo_env (Inr (demo_response ''OUTER'' None Absent)) []) demo_self
     ''http://host/files/data.zip'' None (- 1) demo_fs
   = download_file (demo_env (Inr (demo_response ''OUTER'' None Absent)) []) demo_self
     ''http://host/files/data.zip'' None 8192 demo_fs"
  by (rule download_file_chunk_size_unchecked) (simp add: demo_defs chop_once)

section \<open>The end of a session\<close>

lemma unlink_missing_ok_not_dir:
  assumes "map_of fs p \<noteq> Some Dir"
  shows "\<exists>fs1. unlink_missing_ok p fs = (None, fs1) \<and> map_of fs1 = (map_of fs)(p := None)"
proof (cases "map_of fs p")
  case None
  then have "(map_of fs)(p := None) = map_of fs" by (simp add: fun_upd_idem)
  with None show ?thesis by (simp add: unlink_missing_ok_def)
next
  case (Some a)
  with assms obtain b where "a = File b" by (cases a) auto
  with Some show ?thesis by (simp add: unlink_missing_ok_def delete_conv')
qed






section \<open>Download and extraction together\<close>

text \<open>
  Claim C1 says that when the download, the extraction or the listing fails,
  \<^verbatim>\<open>download_and_extract\<close> removes the downloaded archive and the extraction
  directory, a partially created one included, before it raises the wrapped error. The
  \<^verbatim>\<open>except\<close> block removes the directory only if \<^verbatim>\<open>extract_dir\<close> is bound, which
  it is only once \<^verbatim>\<open>extract_zip\<close> has returned. For a downloaded archive that holds
  \<^verbatim>\<open>a.txt\<close> and a file \<^verbatim>\<open>bad.zip\<close> that is no archive, the nested extraction
  fails; afterwards the downloaded archive is gone, but the directory \<^verbatim>\<open>dl/data\<close> and
  the extracted \<^verbatim>\<open>a.txt\<close> are still there.
\<close>

theorem failed_extraction_leaves_directory:
  "download_and_extract 1000 (demo_env (Inr (demo_response ''BROKEN'' None Absent)) [])
     demo_self ''http://host/files/data.zip'' None demo_fs
   = Some (Inl (Failure (ValueError_not_zip [''dl'', ''data'', ''bad.zip''])),
           [([''dl''], Dir), ([''dl'', ''data''], Dir),
            ([''dl'', ''data'', ''a.txt''], File ''hi'')])"
  by code_simp

text \<open>In general: after a successful download and a failed extraction, the file system
  is the one the extraction left, without the downloaded archive and with everything
  else.\<close>

lemma failed_extraction_is_not_rolled_back:
  assumes "download_file E self url None 8192 fs = Some (Inr zip_path, fs1)"
    and "extract_zip depth E self zip_path extract_path fs1 = (Inl e, fs2)"
    and "map_of fs2 zip_path \<noteq> Some Dir"
  shows "\<exists>fs3. download_and_extract depth E self url extract_path fs
                 = Some (Inl (Failure e), fs3)
           \<and> map_of fs3 = (map_of fs2)(zip_path := None)"
proof -
  from unlink_missing_ok_not_dir [OF assms(3)] obtain fs3 where
    "unlink_missing_ok zip_path fs2 = (None, fs3)" "map_of fs3 = (map_of fs2)(zip_path := None)"
    by blast
  with assms(1,2) show ?thesis
    by (simp add: download_and_extract_def rollback_def)
qed

section \<open>The extraction\<close>



lemma mkdirs_fails_iff:
  "mkdirs qs fs = None \<longleftrightarrow> (\<exists>q \<in> set qs. \<exists>b. map_of fs q = Some (File b))"
proof (induction qs arbitrary: fs)
  case Nil
  then show ?case by simp
next
  case (Cons q qs)
  show ?case
  proof (cases "map_of fs q")
    case None
    then have "map_of (AList.update q Dir fs) q' = Some (File b)
               \<longleftrightarrow> map_of fs q' = Some (File b)" for q' b
      by (auto simp: update_conv')
    then have "(\<exists>q' \<in> set qs. \<exists>b. map_of (AList.update q Dir fs) q' = Some (File b))
               \<longleftrightarrow> (\<exists>q' \<in> set qs. \<exists>b. map_of fs q' = Some (File b))"
      by simp
    with None Cons.IH [of "AList.update q Dir fs"] show ?thesis by simp
  next
    case (Some n)
    with Cons.IH [of fs] show ?thesis by (cases n) auto
  qed
qed

text \<open>The destination directory can be made unless a file is at the destination or at one
  of its ancestors.\<close>

lemma mkdir_p_fails_iff:
  "mkdir_p d fs = None \<longleftrightarrow> (\<exists>p b. p \<noteq> [] \<and> prefix p d \<and> map_of fs p = Some (File b))"
proof -
  have "set (tl (prefixes d)) = {p. p \<noteq> [] \<and> prefix p d}"
    by (cases d) (auto simp: in_set_prefixes prefix_Cons image_iff)
  then show ?thesis unfolding mkdir_p_def mkdirs_fails_iff by auto
qed




subsection \<open>Nested archives\<close>



























subsubsection \<open>No archive file is left behind\<close>








subsubsection \<open>Plain files stay\<close>




subsubsection \<open>Nested archives are expanded\<close>







subsubsection \<open>Nothing else is written\<close>









end
